theory Spec2Isabelle
  imports
    Main
    "HOL-Library.Sublist"
    "HOL-Library.Multiset"
    "HOL-Library.Char_ord"
    "HOL-Library.List_Lexorder"
begin

section \<open>JavaScript string operations used by \<^verbatim>\<open>extension.ts\<close>\<close>

text \<open>
  Strings are \<^typ>\<open>string\<close> (lists of characters). The operations below are the
  \<^verbatim>\<open>String.prototype\<close> methods the extension calls: \<^verbatim>\<open>startsWith\<close>,
  \<^verbatim>\<open>endsWith\<close>, \<^verbatim>\<open>substring(n)\<close> and \<^verbatim>\<open>includes\<close>.
\<close>

definition startsWith :: "string \<Rightarrow> string \<Rightarrow> bool" where
  "startsWith s p = prefix p s"

definition endsWith :: "string \<Rightarrow> string \<Rightarrow> bool" where
  "endsWith s p = suffix p s"

definition substring :: "string \<Rightarrow> nat \<Rightarrow> string" where
  "substring s n = drop n s"

fun includes_str :: "string \<Rightarrow> string \<Rightarrow> bool" where
  "includes_str [] t = (t = [])"
| "includes_str (c # s) t = (prefix t (c # s) \<or> includes_str s t)"

definition ascii_lower :: "char \<Rightarrow> char" where
  "ascii_lower c =
     (case map_of (zip ''ABCDEFGHIJKLMNOPQRSTUVWXYZ'' ''abcdefghijklmnopqrstuvwxyz'') c of
        Some l \<Rightarrow> l
      | None \<Rightarrow> c)"

definition ascii_space :: "char \<Rightarrow> bool" where
  "ascii_space c = (c \<in> set [CHR 0x20, CHR 0x09, CHR 0x0A, CHR 0x0B, CHR 0x0C, CHR 0x0D])"

section \<open>The host: Node's \<^verbatim>\<open>path\<close> module and locale-dependent string methods\<close>

text \<open>
  The extension imports \<^verbatim>\<open>node:path\<close> and uses \<^verbatim>\<open>path.sep\<close>,
  \<^verbatim>\<open>path.join\<close> and \<^verbatim>\<open>path.dirname\<close>; it also calls
  \<^verbatim>\<open>toLowerCase\<close>, \<^verbatim>\<open>trim\<close> and \<^verbatim>\<open>localeCompare\<close>, whose results
  depend on Unicode tables and the collation of the running engine. None of these is part
  of the repository, so the functions of the extension take them as a record of host
  functions.
\<close>

record host =
  path_sep :: string
  path_join :: "string \<Rightarrow> string \<Rightarrow> string"
  path_dirname :: "string \<Rightarrow> string"
  toLowerCase :: "string \<Rightarrow> string"
  trim :: "string \<Rightarrow> string"
  localeCompare :: "string \<Rightarrow> string \<Rightarrow> int"

subsection \<open>The POSIX flavour of \<^verbatim>\<open>path\<close>\<close>

text \<open>
  \<^verbatim>\<open>"a/b".split("/")\<close>: the segments between the slashes; the empty string has the
  one segment \<^verbatim>\<open>""\<close>.
\<close>

fun split_slash :: "string \<Rightarrow> string list" where
  "split_slash [] = [[]]"
| "split_slash (c # cs) =
     (if c = CHR ''/'' then [] # split_slash cs
      else (case split_slash cs of
              [] \<Rightarrow> [[c]]
            | seg # segs \<Rightarrow> (c # seg) # segs))"

fun join_with :: "string \<Rightarrow> string list \<Rightarrow> string" where
  "join_with s [] = []"
| "join_with s [x] = x"
| "join_with s (x # y # ys) = x @ s @ join_with s (y # ys)"

text \<open>
  One step of Node's \<^verbatim>\<open>normalizeString\<close>, which walks the path segment by segment
  and keeps the segments of the result (here as a stack, last segment first): empty
  segments and \<^verbatim>\<open>.\<close> are dropped; \<^verbatim>\<open>..\<close> removes the last kept segment unless
  there is none or it is \<^verbatim>\<open>..\<close> itself, in which case \<^verbatim>\<open>..\<close> is kept when
  \<^verbatim>\<open>allowAboveRoot\<close> holds and dropped otherwise.
\<close>

definition normalizeStep :: "bool \<Rightarrow> string list \<Rightarrow> string \<Rightarrow> string list" where
  "normalizeStep allowAboveRoot res seg =
     (if seg = [] \<or> seg = ''.'' then res
      else if seg = ''..'' then
        (case res of
           [] \<Rightarrow> if allowAboveRoot then [''..''] else []
         | r # rs \<Rightarrow>
             if r \<noteq> ''..'' then rs
             else if allowAboveRoot then ''..'' # res else res)
      else seg # res)"

definition normalizeSegments :: "bool \<Rightarrow> string list \<Rightarrow> string list" where
  "normalizeSegments allowAboveRoot segs = rev (foldl (normalizeStep allowAboveRoot) [] segs)"

definition isAbsolute :: "string \<Rightarrow> bool" where
  "isAbsolute p = (p \<noteq> [] \<and> hd p = CHR ''/'')"

definition posix_normalize :: "string \<Rightarrow> string" where
  "posix_normalize p =
     (if p = [] then ''.''
      else
        let trailingSeparator = (last p = CHR ''/'');
            res = join_with ''/'' (normalizeSegments (\<not> isAbsolute p) (split_slash p))
        in if res = [] then
             (if isAbsolute p then ''/'' else if trailingSeparator then ''./'' else ''.'')
           else (if isAbsolute p then ''/'' else []) @ res
                @ (if trailingSeparator then ''/'' else []))"

definition posix_join :: "string \<Rightarrow> string \<Rightarrow> string" where
  "posix_join a b =
     (let parts = filter (\<lambda>arg. arg \<noteq> []) [a, b]
      in if parts = [] then ''.'' else posix_normalize (join_with ''/'' parts))"

text \<open>
  \<^verbatim>\<open>path.dirname\<close>: scanning from the end down to index 1, trailing slashes are
  skipped, then the last segment; the slash found there is the end of the result.
\<close>

definition posix_dirname :: "string \<Rightarrow> string" where
  "posix_dirname p =
     (if p = [] then ''.''
      else
        let hasRoot = (hd p = CHR ''/'');
            afterTrailing = dropWhile (\<lambda>c. c = CHR ''/'') (rev (tl p));
            upToSlash = dropWhile (\<lambda>c. c \<noteq> CHR ''/'') afterTrailing;
            endIndex = length upToSlash
        in if upToSlash = [] then (if hasRoot then ''/'' else ''.'')
           else if hasRoot \<and> endIndex = 1 then ''//''
           else take endIndex p)"

text \<open>
  The locale-dependent methods on ASCII text: \<^verbatim>\<open>toLowerCase\<close> maps \<^verbatim>\<open>A-Z\<close> to
  \<^verbatim>\<open>a-z\<close>, \<^verbatim>\<open>trim\<close> strips the ASCII white space and line terminators from both
  ends, and \<^verbatim>\<open>localeCompare\<close> compares character by character.
\<close>

definition ascii_trim :: "string \<Rightarrow> string" where
  "ascii_trim s = rev (dropWhile ascii_space (rev (dropWhile ascii_space s)))"

definition ascii_compare :: "string \<Rightarrow> string \<Rightarrow> int" where
  "ascii_compare a b = (if a < b then - 1 else if a = b then 0 else 1)"

definition posix :: host where
  "posix = \<lparr> path_sep = ''/'',
             path_join = posix_join,
             path_dirname = posix_dirname,
             toLowerCase = map ascii_lower,
             trim = ascii_trim,
             localeCompare = ascii_compare \<rparr>"

section \<open>PathResolver: \<^verbatim>\<open>getRelativePath\<close> and \<^verbatim>\<open>getFullPath\<close>\<close>

text \<open>
  \<^verbatim>\<open>workspaceFolders && workspaceFolders.length > 0\<close> with
  \<^verbatim>\<open>workspaceFolders[0].uri.fsPath\<close> is the optional workspace root.
\<close>

definition getRelativePath :: "string \<Rightarrow> string option \<Rightarrow> string \<Rightarrow> string" where
  "getRelativePath sep workspaceRoot fullPath =
     (case workspaceRoot of
        None \<Rightarrow> fullPath
      | Some root \<Rightarrow>
          if startsWith fullPath root then
            let relativePath = substring fullPath (length root);
                result = (if startsWith relativePath sep \<or> startsWith relativePath [CHR 0x5C]
                          then substring relativePath 1 else relativePath);
                result = (if result \<noteq> [] \<and> \<not> endsWith result ''/'' then result @ ''/''
                          else result)
            in result
          else fullPath)"

definition getFullPath :: "(string \<Rightarrow> string \<Rightarrow> string) \<Rightarrow> string option \<Rightarrow> string \<Rightarrow> string" where
  "getFullPath join workspaceRoot relativePath =
     (case workspaceRoot of
        Some root \<Rightarrow> join root relativePath
      | None \<Rightarrow> relativePath)"

section \<open>DirectoryBrowser: the data of the picker\<close>

text \<open>
  \<^verbatim>\<open>interface FileItem extends vscode.QuickPickItem\<close>. The field \<^verbatim>\<open>uri\<close> holds the
  path the item was built from with \<^verbatim>\<open>vscode.Uri.file\<close>, which is what
  \<^verbatim>\<open>uri.fsPath\<close> gives back; \<^verbatim>\<open>isCreateFile\<close> is optional and tested for
  truthiness.
\<close>

record FileItem =
  label :: string
  description :: "string option"
  uri :: string
  isDirectory :: bool
  isFile :: bool
  isCreateFile :: "bool option"

definition truthy :: "bool option \<Rightarrow> bool" where
  "truthy b = (b = Some True)"

text \<open>The result of \<^verbatim>\<open>fs.promises.stat\<close>, as far as the extension reads it.\<close>

record stats =
  stat_isDirectory :: bool
  stat_isFile :: bool

text \<open>
  The surroundings of one event handler run: the workspace root, the file of the active
  editor, and the file system and editor services. A service that rejects returns the text
  of its error (\<^verbatim>\<open>Inl\<close>, or \<^verbatim>\<open>Some\<close> where there is no result).
\<close>

record env =
  workspaceRoot :: "string option"
  activeEditor :: "string option"
  readdir :: "string \<Rightarrow> string + string list"
  stat :: "string \<Rightarrow> string + stats"
  writeFile :: "string \<Rightarrow> string option"
  openTextDocument :: "string \<Rightarrow> string option"

datatype effect =
    ShowErrorMessage string
  | ConsoleLog string
  | WriteFile string
  | ShowTextDocument string
  | Hide

text \<open>
  The module variable \<^verbatim>\<open>currentPath\<close> together with the fields of the QuickPick the
  handlers assign, and the trace of what the handlers did to the outside.
\<close>

record session =
  currentPath :: string
  qp_title :: string
  qp_items :: "FileItem list"
  qp_value :: string
  effects :: "effect list"

section \<open>\<^verbatim>\<open>getDirectoryItems\<close>\<close>

definition goUpItem :: "host \<Rightarrow> string \<Rightarrow> FileItem" where
  "goUpItem h cur =
     \<lparr> label = ''..'',
       description = Some ''Go up one directory'',
       uri = path_dirname h cur,
       isDirectory = True,
       isFile = False,
       isCreateFile = None \<rparr>"

definition childItem :: "string \<Rightarrow> string \<Rightarrow> stats \<Rightarrow> FileItem" where
  "childItem fullPath file st =
     \<lparr> label = file @ (if stat_isDirectory st then ''/'' else []),
       description = None,
       uri = fullPath,
       isDirectory = stat_isDirectory st,
       isFile = stat_isFile st,
       isCreateFile = None \<rparr>"

text \<open>
  The \<^verbatim>\<open>for (const file of files)\<close> loop: the first \<^verbatim>\<open>stat\<close> that rejects ends
  the loop with its error.
\<close>

fun statChildren :: "host \<Rightarrow> env \<Rightarrow> string \<Rightarrow> string list \<Rightarrow> string + FileItem list" where
  "statChildren h e cur [] = Inr []"
| "statChildren h e cur (file # files) =
     (let fullPath = path_join h cur file
      in (case stat e fullPath of
            Inl err \<Rightarrow> Inl err
          | Inr st \<Rightarrow>
              (case statChildren h e cur files of
                 Inl err \<Rightarrow> Inl err
               | Inr rest \<Rightarrow> Inr (childItem fullPath file st # rest))))"

text \<open>The comparator passed to \<^verbatim>\<open>items.sort\<close>.\<close>

definition compareItems :: "host \<Rightarrow> FileItem \<Rightarrow> FileItem \<Rightarrow> int" where
  "compareItems h a b =
     (if label a = ''..'' then - 1
      else if label b = ''..'' then 1
      else if isDirectory a \<and> \<not> isDirectory b then - 1
      else if \<not> isDirectory a \<and> isDirectory b then 1
      else localeCompare h (label a) (label b))"

text \<open>
  \<^verbatim>\<open>Array.prototype.sort\<close> is stable and puts \<^verbatim>\<open>a\<close> before \<^verbatim>\<open>b\<close> when the
  comparator is negative: a stable insertion sort, each element going in front of the
  first one it does not compare greater than. For a consistent comparator every stable
  sort returns this list; \<^verbatim>\<open>compareItems\<close> is consistent when
  \<^verbatim>\<open>localeCompare\<close> is and at most one label is \<^verbatim>\<open>..\<close>.
\<close>

fun insertItem :: "('a \<Rightarrow> 'a \<Rightarrow> int) \<Rightarrow> 'a \<Rightarrow> 'a list \<Rightarrow> 'a list" where
  "insertItem cmp x [] = [x]"
| "insertItem cmp x (y # ys) =
     (if cmp x y \<le> 0 then x # y # ys else y # insertItem cmp x ys)"

definition sortItems :: "('a \<Rightarrow> 'a \<Rightarrow> int) \<Rightarrow> 'a list \<Rightarrow> 'a list" where
  "sortItems cmp xs = foldr (insertItem cmp) xs []"

text \<open>
  The result is the returned list and what the \<^verbatim>\<open>catch\<close> block showed:
  \<^verbatim>\<open>readdir\<close> and every \<^verbatim>\<open>stat\<close> run inside the one \<^verbatim>\<open>try\<close>.
\<close>

definition getDirectoryItems :: "host \<Rightarrow> env \<Rightarrow> string \<Rightarrow> FileItem list \<times> effect list" where
  "getDirectoryItems h e cur =
     (case readdir e cur of
        Inl err \<Rightarrow> ([], [ShowErrorMessage (''Error reading directory: '' @ err)])
      | Inr files \<Rightarrow>
          let items = (case workspaceRoot e of
                         Some root \<Rightarrow> if cur \<noteq> root then [goUpItem h cur] else []
                       | None \<Rightarrow> [])
          in (case statChildren h e cur files of
                Inl err \<Rightarrow> ([], [ShowErrorMessage (''Error reading directory: '' @ err)])
              | Inr children \<Rightarrow> (sortItems (compareItems h) (items @ children), [])))"

section \<open>Navigation\<close>

definition navigateToPathAndUpdateQuickPick :: "host \<Rightarrow> env \<Rightarrow> string \<Rightarrow> session \<Rightarrow> session" where
  "navigateToPathAndUpdateQuickPick h e newPath s =
     (if (case workspaceRoot e of
            Some root \<Rightarrow> length newPath < length root \<or> \<not> startsWith newPath root
          | None \<Rightarrow> False)
      then s\<lparr> effects := effects s @ [ConsoleLog ''Prevented navigation above workspace root''] \<rparr>
      else
        let s1 = s\<lparr> currentPath := newPath \<rparr>;
            (newItems, shown) = getDirectoryItems h e (currentPath s1);
            s2 = s1\<lparr> qp_items := newItems, effects := effects s1 @ shown \<rparr>;
            s3 = s2\<lparr> qp_title := ''>>> '' @ getRelativePath (path_sep h) (workspaceRoot e) (currentPath s2) \<rparr>
        in s3\<lparr> qp_value := [] \<rparr>)"

text \<open>
  \<^verbatim>\<open>show\<close> and \<^verbatim>\<open>showQuickPick\<close>: the start of a session. Without an active
  editor and without a workspace folder no picker is created.
\<close>

definition showQuickPick :: "host \<Rightarrow> env \<Rightarrow> string \<Rightarrow> session" where
  "showQuickPick h e cur =
     (let (its, shown) = getDirectoryItems h e cur
      in \<lparr> currentPath = cur,
           qp_title = ''>>> '' @ getRelativePath (path_sep h) (workspaceRoot e) cur,
           qp_items = its,
           qp_value = [],
           effects = shown \<rparr>)"


section \<open>Accepting an item\<close>

datatype action =
    NavigateUp
  | CreateAndOpen string
  | NavigateInto string
  | Open string

text \<open>The \<^verbatim>\<open>if\<close> chain of \<^verbatim>\<open>onDidAccept\<close>, in its order.\<close>

definition resolveSelection :: "FileItem \<Rightarrow> action" where
  "resolveSelection selected =
     (if label selected = ''..'' then NavigateUp
      else if truthy (isCreateFile selected) then CreateAndOpen (uri selected)
      else if isDirectory selected then NavigateInto (uri selected)
      else Open (uri selected))"

definition onDidAccept :: "host \<Rightarrow> env \<Rightarrow> FileItem option \<Rightarrow> session \<Rightarrow> session" where
  "onDidAccept h e sel s =
     (case sel of
        None \<Rightarrow> s
      | Some selected \<Rightarrow>
          (case resolveSelection selected of
             NavigateUp \<Rightarrow>
               navigateToPathAndUpdateQuickPick h e (path_dirname h (currentPath s)) s
           | CreateAndOpen p \<Rightarrow>
               (case writeFile e p of
                  Some err \<Rightarrow>
                    s\<lparr> effects := effects s @ [ShowErrorMessage (''Failed to create file: '' @ err)] \<rparr>
                | None \<Rightarrow>
                    (case openTextDocument e p of
                       Some err \<Rightarrow>
                         s\<lparr> effects := effects s
                              @ [WriteFile p, ShowErrorMessage (''Failed to create file: '' @ err)] \<rparr>
                     | None \<Rightarrow>
                         s\<lparr> effects := effects s @ [WriteFile p, ShowTextDocument p, Hide] \<rparr>))
           | NavigateInto p \<Rightarrow> navigateToPathAndUpdateQuickPick h e p s
           | Open p \<Rightarrow>
               (case openTextDocument e p of
                  Some err \<Rightarrow> s
                | None \<Rightarrow> s\<lparr> effects := effects s @ [ShowTextDocument p, Hide] \<rparr>)))"

definition onDidTriggerButton :: "host \<Rightarrow> env \<Rightarrow> string \<Rightarrow> session \<Rightarrow> session" where
  "onDidTriggerButton h e tooltip s =
     (if tooltip = ''Go Up''
      then navigateToPathAndUpdateQuickPick h e (path_dirname h (currentPath s)) s
      else s)"

section \<open>Typing a query\<close>

text \<open>
  The label of the create-file item is the page emoji U+1F4C4 (four bytes in UTF-8),
  \<^verbatim>\<open> Create "\<close>, the typed value and a closing double quote.
\<close>

definition createLabel :: "string \<Rightarrow> string" where
  "createLabel v = [CHR 0xF0, CHR 0x9F, CHR 0x93, CHR 0x84] @ '' Create '' @ [CHR 0x22] @ v @ [CHR 0x22]"

definition createFileItem :: "host \<Rightarrow> string \<Rightarrow> string \<Rightarrow> FileItem" where
  "createFileItem h cur v =
     \<lparr> label = createLabel v,
       description = Some ''Create new file'',
       uri = path_join h cur v,
       isDirectory = False,
       isFile = True,
       isCreateFile = Some True \<rparr>"

definition hasMatchingItems :: "host \<Rightarrow> FileItem list \<Rightarrow> string \<Rightarrow> bool" where
  "hasMatchingItems h currentItems v =
     list_ex (\<lambda>item. includes_str (toLowerCase h (label item)) (toLowerCase h v)) currentItems"

text \<open>
  \<^verbatim>\<open>onDidChangeValue\<close> as a function from the displayed items to the displayed items:
  where the handler does not assign \<^verbatim>\<open>quickPick.items\<close>, they stay as they were.
\<close>

definition onDidChangeValue :: "host \<Rightarrow> string \<Rightarrow> FileItem list \<Rightarrow> string \<Rightarrow> FileItem list" where
  "onDidChangeValue h cur its v =
     (let currentItems = filter (\<lambda>item. \<not> truthy (isCreateFile item)) its
      in if v = [] then currentItems
         else if \<not> hasMatchingItems h currentItems v \<and> trim h v \<noteq> []
              then currentItems @ [createFileItem h cur v]
              else its)"

definition changeValue :: "host \<Rightarrow> string \<Rightarrow> session \<Rightarrow> session" where
  "changeValue h v s =
     s\<lparr> qp_value := v, qp_items := onDidChangeValue h (currentPath s) (qp_items s) v \<rparr>"

section \<open>Sessions\<close>

text \<open>
  One event of a session whose workspace root is \<^term>\<open>root\<close>: the user accepts one of the
  displayed items, types, or presses the Go Up button. The file system may differ from
  event to event.
\<close>

inductive event :: "host \<Rightarrow> string option \<Rightarrow> session \<Rightarrow> session \<Rightarrow> bool"
  for h :: host and root :: "string option" where
  accept: "workspaceRoot e = root \<Longrightarrow> selected \<in> set (qp_items s)
           \<Longrightarrow> event h root s (onDidAccept h e (Some selected) s)"
| typed: "event h root s (changeValue h v s)"
| button: "workspaceRoot e = root \<Longrightarrow> event h root s (onDidTriggerButton h e ''Go Up'' s)"


section \<open>The kinds of entry\<close>

text \<open>
  The specification speaks of four kinds of entry; the code tells them apart by the label
  \<^verbatim>\<open>..\<close> and the flags \<^verbatim>\<open>isCreateFile\<close> and \<^verbatim>\<open>isDirectory\<close>.
\<close>

datatype kind = Directory | File | ParentLink | CreateStub

definition kind_of :: "FileItem \<Rightarrow> kind" where
  "kind_of item =
     (if label item = ''..'' then ParentLink
      else if truthy (isCreateFile item) then CreateStub
      else if isDirectory item then Directory
      else File)"

definition isCreateStub :: "FileItem \<Rightarrow> bool" where
  "isCreateStub item = truthy (isCreateFile item)"

section \<open>Concrete surroundings\<close>

text \<open>
  A workspace \<^verbatim>\<open>/ws\<close> with the directory \<^verbatim>\<open>/ws/src\<close>, which holds two
  directories and two files; the active editor shows \<^verbatim>\<open>/ws/src/a.ts\<close>.
\<close>

definition demo_env :: env where
  "demo_env =
     \<lparr> workspaceRoot = Some ''/ws'',
       activeEditor = Some ''/ws/src/a.ts'',
       readdir = (\<lambda>d. if d = ''/ws/src'' then Inr [''zebra.txt'', ''alpha'', ''beta'', ''apple.txt'']
                      else if d = ''/ws'' then Inr [''src'']
                      else if d = ''/etc'' then Inr [''hosts'']
                      else Inl ''ENOENT''),
       stat = (\<lambda>p. if p \<in> set [''/ws/src'', ''/ws/src/alpha'', ''/ws/src/beta'']
                   then Inr \<lparr> stat_isDirectory = True, stat_isFile = False \<rparr>
                   else Inr \<lparr> stat_isDirectory = False, stat_isFile = True \<rparr>),
       writeFile = (\<lambda>p. None),
       openTextDocument = (\<lambda>p. None) \<rparr>"

text \<open>The same, with \<^verbatim>\<open>/ws/src/beta\<close> unreadable.\<close>

definition broken_env :: env where
  "broken_env =
     demo_env\<lparr> stat := (\<lambda>p. if p = ''/ws/src/beta'' then Inl ''EACCES'' else stat demo_env p) \<rparr>"


definition plain_file :: stats where
  "plain_file = \<lparr> stat_isDirectory = False, stat_isFile = True \<rparr>"

definition plain_dir :: stats where
  "plain_dir = \<lparr> stat_isDirectory = True, stat_isFile = False \<rparr>"

text \<open>
  The displayed list of \<^verbatim>\<open>/ws\<close> holding the one file \<^verbatim>\<open>b.txt\<close>, after the user
  typed \<^verbatim>\<open>c\<close>: the file and the create-file item for \<^verbatim>\<open>c\<close>.
\<close>

definition b_txt :: FileItem where
  "b_txt = childItem ''/ws/b.txt'' ''b.txt'' plain_file"

definition after_typing_c :: "FileItem list" where
  "after_typing_c = [b_txt, createFileItem posix ''/ws'' ''c'']"

text \<open>The five items of the sorting test of the repository.\<close>

definition mock_item :: "string \<Rightarrow> bool \<Rightarrow> FileItem" where
  "mock_item l d =
     \<lparr> label = l, description = None, uri = [], isDirectory = d, isFile = \<not> d,
       isCreateFile = None \<rparr>"

definition mockItems :: "FileItem list" where
  "mockItems =
     [mock_item ''zebra.txt'' False, mock_item ''alpha/'' True, mock_item ''..'' True,
      mock_item ''beta/'' True, mock_item ''apple.txt'' False]"

section \<open>The order of a listing, in the words of the specification\<close>

text \<open>
  The parent link comes first; of the others a directory comes before a file; two
  entries of the same kind are in ascending order of \<^verbatim>\<open>localeCompare\<close> on their
  labels.
\<close>

definition listed_before :: "host \<Rightarrow> FileItem \<Rightarrow> FileItem \<Rightarrow> bool" where
  "listed_before h a b =
     (kind_of a = ParentLink
      \<or> (kind_of a = Directory \<and> kind_of b = File)
      \<or> (kind_of a = kind_of b \<and> localeCompare h (label a) (label b) \<le> 0))"

text \<open>
  The session that starts on \<^verbatim>\<open>/ws/src/a.ts\<close>, and the session after the user
  accepted the Go Up item there.
\<close>

definition demo_start :: session where
  "demo_start = showQuickPick posix demo_env ''/ws/src''"

definition demo_up :: session where
  "demo_up = onDidAccept posix demo_env (Some (goUpItem posix ''/ws/src'')) demo_start"

section \<open>Equality of paths\<close>

text \<open>
  Two paths are equal as paths when both are absolute or both are relative and they
  resolve to the same segments: \<^verbatim>\<open>/ws/src\<close>, \<^verbatim>\<open>/ws/src/\<close> and
  \<^verbatim>\<open>/ws//a/../src\<close> are equal as paths.
\<close>

definition canonical :: "string \<Rightarrow> bool \<times> string list" where
  "canonical p = (isAbsolute p, normalizeSegments (\<not> isAbsolute p) (split_slash p))"

definition path_equal :: "string \<Rightarrow> string \<Rightarrow> bool" where
  "path_equal a b = (canonical a = canonical b)"

text \<open>
  A stack of kept segments as \<^verbatim>\<open>normalizeString\<close> builds it: no segment is empty,
  is \<^verbatim>\<open>.\<close> or holds a slash, and \<^verbatim>\<open>..\<close> stands only on \<^verbatim>\<open>..\<close> or on the
  empty stack, and only where it is allowed.
\<close>

fun normal_stack :: "bool \<Rightarrow> string list \<Rightarrow> bool" where
  "normal_stack a [] = True"
| "normal_stack a (s # st) =
     (s \<noteq> [] \<and> s \<noteq> ''.'' \<and> CHR ''/'' \<notin> set s
      \<and> (s = ''..'' \<longrightarrow> a \<and> (st = [] \<or> hd st = ''..''))
      \<and> normal_stack a st)"

section \<open>Evaluation on concrete inputs\<close>

lemmas posix_path_eval =
  posix_def posix_join_def posix_normalize_def posix_dirname_def isAbsolute_def
  normalizeSegments_def normalizeStep_def

lemmas string_eval =
  startsWith_def endsWith_def substring_def ascii_lower_def ascii_trim_def ascii_space_def
  ascii_compare_def suffix_to_prefix Let_def

lemmas item_eval =
  goUpItem_def childItem_def createFileItem_def createLabel_def truthy_def
  plain_file_def plain_dir_def b_txt_def after_typing_c_def mock_item_def mockItems_def

section \<open>Listing a directory: failure of a single child\<close>

lemma statChildren_failure:
  "\<exists>file\<in>set files. isl (stat e (path_join h cur file)) \<Longrightarrow>
   \<exists>err. statChildren h e cur files = Inl err
         \<and> (\<exists>file\<in>set files. stat e (path_join h cur file) = Inl err)"
proof (induction files)
  case Nil
  then show ?case by simp
next
  case (Cons f fs)
  show ?case
  proof (cases "stat e (path_join h cur f)")
    case (Inl err)
    then show ?thesis by (auto simp: Let_def)
  next
    case (Inr st)
    with Cons.prems have "\<exists>file\<in>set fs. isl (stat e (path_join h cur file))"
      by auto
    from Cons.IH [OF this] obtain err where
      "statChildren h e cur fs = Inl err"
      "\<exists>file\<in>set fs. stat e (path_join h cur file) = Inl err"
      by blast
    with Inr show ?thesis by (auto simp: Let_def)
  qed
qed

text \<open>
  Claim C10. When \<^verbatim>\<open>readdir\<close> succeeds and the \<^verbatim>\<open>stat\<close> of some child fails,
  \<^verbatim>\<open>getDirectoryItems\<close> returns the empty list and shows one error message carrying
  the error of a failing child; this is the very result of a listing whose
  \<^verbatim>\<open>readdir\<close> fails with that error. No item of a child that was read before the
  failure is returned.
\<close>

theorem C10_stat_failure_aborts_listing:
  assumes "readdir e cur = Inr files"
    and "\<exists>file\<in>set files. isl (stat e (path_join h cur file))"
  shows "\<exists>err. (\<exists>file\<in>set files. stat e (path_join h cur file) = Inl err)
           \<and> getDirectoryItems h e cur
               = ([], [ShowErrorMessage (''Error reading directory: '' @ err)])
           \<and> getDirectoryItems h e cur
               = getDirectoryItems h (e\<lparr> readdir := (\<lambda>d. Inl err) \<rparr>) cur"
proof -
  from statChildren_failure [OF assms(2)] obtain err where
    err: "statChildren h e cur files = Inl err"
         "\<exists>file\<in>set files. stat e (path_join h cur file) = Inl err"
    by blast
  have "getDirectoryItems h e cur = ([], [ShowErrorMessage (''Error reading directory: '' @ err)])"
    using assms(1) err(1) by (simp add: getDirectoryItems_def Let_def)
  moreover have "getDirectoryItems h (e\<lparr> readdir := (\<lambda>d. Inl err) \<rparr>) cur
                   = ([], [ShowErrorMessage (''Error reading directory: '' @ err)])"
    by (simp add: getDirectoryItems_def)
  ultimately show ?thesis using err(2) by auto
qed

lemma broken_env_readdir:
  "readdir broken_env ''/ws/src'' = Inr [''zebra.txt'', ''alpha'', ''beta'', ''apple.txt'']"
  by (simp add: broken_env_def demo_env_def)

lemma broken_env_stat:
  "\<exists>file\<in>set [''zebra.txt'', ''alpha'', ''beta'', ''apple.txt''].
     isl (stat broken_env (path_join posix ''/ws/src'' file))"
  by (simp add: broken_env_def demo_env_def posix_path_eval)

theorem C10_stat_failure_aborts_listing_witness:
  "readdir broken_env ''/ws/src'' = Inr [''zebra.txt'', ''alpha'', ''beta'', ''apple.txt'']
   \<and> (\<exists>file\<in>set [''zebra.txt'', ''alpha'', ''beta'', ''apple.txt''].
         isl (stat broken_env (path_join posix ''/ws/src'' file)))
   \<and> (\<exists>err. getDirectoryItems posix broken_env ''/ws/src''
               = ([], [ShowErrorMessage (''Error reading directory: '' @ err)]))"
  using C10_stat_failure_aborts_listing [OF broken_env_readdir broken_env_stat]
    broken_env_readdir broken_env_stat
  by blast

section \<open>Accepted navigation\<close>

text \<open>
  Claim C9. A target that the boundary check accepts (it is the root, or the root is a
  strict prefix of it) becomes \<^verbatim>\<open>currentPath\<close>; the query is reset to the empty
  string, the displayed items are those \<^verbatim>\<open>getDirectoryItems\<close> returns for the new
  directory, and the title is the marker followed by the root-relative form of the new
  directory. What the listing showed to the user is appended to the trace.
\<close>

theorem C9_accepted_navigation:
  assumes "workspaceRoot e = Some root"
    and "target = root \<or> strict_prefix root target"
  shows "currentPath (navigateToPathAndUpdateQuickPick h e target s) = target
       \<and> qp_value (navigateToPathAndUpdateQuickPick h e target s) = []
       \<and> qp_items (navigateToPathAndUpdateQuickPick h e target s)
           = fst (getDirectoryItems h e target)
       \<and> qp_title (navigateToPathAndUpdateQuickPick h e target s)
           = ''>>> '' @ getRelativePath (path_sep h) (Some root) target
       \<and> effects (navigateToPathAndUpdateQuickPick h e target s)
           = effects s @ snd (getDirectoryItems h e target)"
proof -
  from assms(2) have pre: "prefix root target" and len: "\<not> length target < length root"
    by (auto simp: strict_prefix_def dest: prefix_length_le)
  then show ?thesis
    using assms(1)
    by (simp add: navigateToPathAndUpdateQuickPick_def startsWith_def Let_def
        split: prod.splits)
qed

theorem C9_accepted_navigation_witness:
  "workspaceRoot demo_env = Some ''/ws''
   \<and> (''/ws/src'' = ''/ws'' \<or> strict_prefix ''/ws'' ''/ws/src'')
   \<and> currentPath (navigateToPathAndUpdateQuickPick posix demo_env ''/ws/src''
                   (showQuickPick posix demo_env ''/ws'')) = ''/ws/src''
   \<and> qp_value (navigateToPathAndUpdateQuickPick posix demo_env ''/ws/src''
                   (showQuickPick posix demo_env ''/ws'')) = []
   \<and> qp_title (navigateToPathAndUpdateQuickPick posix demo_env ''/ws/src''
                   (showQuickPick posix demo_env ''/ws'')) = ''>>> src/''"
proof -
  have r: "workspaceRoot demo_env = Some ''/ws''"
    by (simp add: demo_env_def)
  have p: "''/ws/src'' = ''/ws'' \<or> strict_prefix ''/ws'' ''/ws/src''"
    by simp
  have t: "getRelativePath (path_sep posix) (Some ''/ws'') ''/ws/src'' = ''src/''"
    by (simp add: getRelativePath_def posix_def string_eval)
  show ?thesis
    using C9_accepted_navigation [OF r p, of posix "showQuickPick posix demo_env ''/ws''"] r p t
    by simp
qed

section \<open>Classifying the accepted item\<close>

text \<open>
  Claim C5. The action of an accepted item is determined by its kind: the parent link
  gives \<^verbatim>\<open>NavigateUp\<close>, which navigates to \<^verbatim>\<open>path.dirname(currentPath)\<close>; a
  create-file item gives \<^verbatim>\<open>CreateAndOpen\<close> of its path, a directory
  \<^verbatim>\<open>NavigateInto\<close> its path and a file \<^verbatim>\<open>Open\<close> of its path. The three ways
  the code builds an item give these kinds: the Go Up item is a parent link, the item of
  a typed value a create-file item, and the item of a child other than \<^verbatim>\<open>..\<close> a
  directory or a file as its \<^verbatim>\<open>stat\<close> says. Being a function into four distinct
  constructors, the classification gives each item exactly one action.
\<close>

theorem C5_resolveSelection_by_kind:
  "resolveSelection item =
     (case kind_of item of
        ParentLink \<Rightarrow> NavigateUp
      | CreateStub \<Rightarrow> CreateAndOpen (uri item)
      | Directory \<Rightarrow> NavigateInto (uri item)
      | File \<Rightarrow> Open (uri item))
   \<and> (kind_of item = ParentLink \<longrightarrow>
        onDidAccept h e (Some item) s
          = navigateToPathAndUpdateQuickPick h e (path_dirname h (currentPath s)) s)
   \<and> (kind_of item = Directory \<longrightarrow>
        onDidAccept h e (Some item) s = navigateToPathAndUpdateQuickPick h e (uri item) s)
   \<and> kind_of (goUpItem h cur) = ParentLink
   \<and> kind_of (createFileItem h cur v) = CreateStub
   \<and> uri (createFileItem h cur v) = path_join h cur v
   \<and> (file \<noteq> ''..'' \<longrightarrow>
        kind_of (childItem p file st) = (if stat_isDirectory st then Directory else File)
        \<and> uri (childItem p file st) = p)"
  by (auto simp: resolveSelection_def kind_of_def onDidAccept_def goUpItem_def
      createFileItem_def createLabel_def childItem_def truthy_def)

theorem C5_resolveSelection_by_kind_witness:
  "''alpha'' \<noteq> ''..''
   \<and> kind_of (childItem ''/ws/src/alpha'' ''alpha'' plain_dir) = Directory
   \<and> resolveSelection (childItem ''/ws/src/alpha'' ''alpha'' plain_dir)
       = NavigateInto ''/ws/src/alpha''
   \<and> resolveSelection (childItem ''/ws/src/zebra.txt'' ''zebra.txt'' plain_file)
       = Open ''/ws/src/zebra.txt''
   \<and> resolveSelection (goUpItem posix ''/ws/src'') = NavigateUp
   \<and> resolveSelection (createFileItem posix ''/ws'' ''newthing'') = CreateAndOpen ''/ws/newthing''"
proof -
  have a: "kind_of (childItem ''/ws/src/alpha'' ''alpha'' plain_dir) = Directory
           \<and> uri (childItem ''/ws/src/alpha'' ''alpha'' plain_dir) = ''/ws/src/alpha''"
    using C5_resolveSelection_by_kind
      [of "childItem ''/ws/src/alpha'' ''alpha'' plain_dir" posix demo_env
          "showQuickPick posix demo_env ''/ws/src''" "''/ws/src''" "''newthing''"
          "''alpha''" "''/ws/src/alpha''" plain_dir]
    by (simp add: plain_dir_def)
  have b: "resolveSelection (childItem ''/ws/src/alpha'' ''alpha'' plain_dir)
             = NavigateInto ''/ws/src/alpha''"
    using C5_resolveSelection_by_kind
      [of "childItem ''/ws/src/alpha'' ''alpha'' plain_dir" posix demo_env
          "showQuickPick posix demo_env ''/ws/src''" "''/ws/src''" "''newthing''"
          "''alpha''" "''/ws/src/alpha''" plain_dir] a
    by simp
  have c: "resolveSelection (childItem ''/ws/src/zebra.txt'' ''zebra.txt'' plain_file)
             = Open ''/ws/src/zebra.txt''"
    by (simp add: resolveSelection_def item_eval)
  have d: "resolveSelection (goUpItem posix ''/ws/src'') = NavigateUp"
    by (simp add: resolveSelection_def item_eval)
  have f: "resolveSelection (createFileItem posix ''/ws'' ''newthing'') = CreateAndOpen ''/ws/newthing''"
    by (simp add: resolveSelection_def item_eval posix_path_eval)
  show ?thesis using a b c d f by simp
qed

section \<open>Typing a query\<close>

lemmas query_eval =
  onDidChangeValue_def hasMatchingItems_def isCreateStub_def posix_path_eval string_eval
  item_eval

lemma after_typing_c_reached:
  "onDidChangeValue posix ''/ws'' [b_txt] ''c'' = after_typing_c"
  by (simp add: query_eval)










text \<open>
  A create-file item that the handler does not replace stays in the displayed list: after
  \<^verbatim>\<open>bx\<close> was typed and the \<^verbatim>\<open>x\<close> deleted, the query \<^verbatim>\<open>b\<close> matches
  \<^verbatim>\<open>b.txt\<close> and the list still holds the item that creates \<^verbatim>\<open>bx\<close>.
\<close>

lemma stale_create_item_kept:
  "onDidChangeValue posix ''/ws'' (onDidChangeValue posix ''/ws'' [b_txt] ''bx'') ''b''
     = [b_txt, createFileItem posix ''/ws'' ''bx'']"
  by (simp add: query_eval)

section \<open>The order of a listing\<close>

lemma mset_insertItem: "mset (insertItem cmp x ys) = add_mset x (mset ys)"
  by (induction ys) auto

lemma mset_sortItems: "mset (sortItems cmp xs) = mset xs"
  by (induction xs) (auto simp: sortItems_def mset_insertItem)

lemma set_insertItem: "set (insertItem cmp x ys) = insert x (set ys)"
  by (induction ys) auto

lemma set_sortItems: "set (sortItems cmp xs) = set xs"
  by (metis mset_sortItems set_mset_mset)

lemma sorted_insertItem:
  assumes total: "\<And>a b. cmp a b \<le> 0 \<or> cmp b a \<le> 0"
    and trans: "\<And>a b c. cmp a b \<le> 0 \<Longrightarrow> cmp b c \<le> 0 \<Longrightarrow> cmp a c \<le> 0"
    and "sorted_wrt (\<lambda>a b. cmp a b \<le> 0) ys"
  shows "sorted_wrt (\<lambda>a b. cmp a b \<le> (0::int)) (insertItem cmp x ys)"
  using assms(3)
proof (induction ys)
  case Nil
  then show ?case by simp
next
  case (Cons y ys)
  show ?case
  proof (cases "cmp x y \<le> 0")
    case True
    have "\<forall>z\<in>set ys. cmp x z \<le> 0"
      using Cons.prems True trans by auto
    with True Cons.prems show ?thesis by simp
  next
    case False
    then have "cmp y x \<le> 0" using total [of x y] by simp
    with False Cons show ?thesis by (auto simp: set_insertItem)
  qed
qed

lemma sorted_sortItems:
  assumes total: "\<And>a b. cmp a b \<le> 0 \<or> cmp b a \<le> 0"
    and trans: "\<And>a b c. cmp a b \<le> 0 \<Longrightarrow> cmp b c \<le> 0 \<Longrightarrow> cmp a c \<le> 0"
  shows "sorted_wrt (\<lambda>a b. cmp a b \<le> (0::int)) (sortItems cmp xs)"
proof (induction xs)
  case Nil
  then show ?case by (simp add: sortItems_def)
next
  case (Cons x xs)
  have "sortItems cmp (x # xs) = insertItem cmp x (sortItems cmp xs)"
    by (simp add: sortItems_def)
  with Cons show ?case
    using sorted_insertItem [of cmp "sortItems cmp xs" x] total trans by simp
qed

lemma compareItems_total:
  assumes "\<forall>a b. localeCompare h a b \<le> 0 \<or> localeCompare h b a \<le> 0"
  shows "compareItems h a b \<le> 0 \<or> compareItems h b a \<le> 0"
  using assms by (auto simp: compareItems_def)

lemma compareItems_trans:
  assumes "\<forall>a b c. localeCompare h a b \<le> 0 \<and> localeCompare h b c \<le> 0
             \<longrightarrow> localeCompare h a c \<le> 0"
    and "compareItems h a b \<le> 0" and "compareItems h b c \<le> 0"
  shows "compareItems h a c \<le> 0"
  using assms(2,3) assms(1) [rule_format, of "label a" "label b" "label c"]
  by (auto simp: compareItems_def split: if_splits)

lemma compareItems_listed_before:
  assumes "compareItems h a b \<le> 0" and "\<not> isCreateStub a" and "\<not> isCreateStub b"
  shows "listed_before h a b"
  using assms
  by (auto simp: compareItems_def listed_before_def kind_of_def isCreateStub_def
      split: if_splits)

lemma statChildren_no_stub:
  "statChildren h e cur files = Inr children \<Longrightarrow> \<forall>i\<in>set children. \<not> isCreateStub i"
proof (induction files arbitrary: children)
  case Nil
  then show ?case by simp
next
  case (Cons f fs)
  then show ?case
    by (auto simp: Let_def isCreateStub_def childItem_def truthy_def split: sum.splits)
qed

lemma sortItems_goUp_first:
  "sortItems (compareItems h) (goUpItem h cur # xs)
     = goUpItem h cur # sortItems (compareItems h) xs"
proof -
  have "insertItem (compareItems h) (goUpItem h cur) ys = goUpItem h cur # ys" for ys
    by (cases ys) (simp_all add: compareItems_def goUpItem_def)
  then show ?thesis by (simp add: sortItems_def)
qed

lemma getDirectoryItems_success:
  assumes "readdir e cur = Inr files" and "statChildren h e cur files = Inr children"
  shows "fst (getDirectoryItems h e cur)
           = sortItems (compareItems h)
               ((case workspaceRoot e of
                   Some root \<Rightarrow> if cur \<noteq> root then [goUpItem h cur] else []
                 | None \<Rightarrow> []) @ children)"
  using assms by (simp add: getDirectoryItems_def Let_def)

lemma getDirectoryItems_no_stub:
  "\<forall>i\<in>set (fst (getDirectoryItems h e cur)). \<not> isCreateStub i"
proof (cases "readdir e cur")
  case (Inl err)
  then show ?thesis by (simp add: getDirectoryItems_def)
next
  case (Inr files)
  show ?thesis
  proof (cases "statChildren h e cur files")
    case (Inl err)
    with Inr show ?thesis by (simp add: getDirectoryItems_def)
  next
    case children: (Inr children)
    have up: "\<not> isCreateStub (goUpItem h cur)"
      by (simp add: isCreateStub_def goUpItem_def truthy_def)
    show ?thesis
      unfolding getDirectoryItems_success [OF Inr children] set_sortItems
      using statChildren_no_stub [OF children] up
      by (auto split: option.splits if_splits)
  qed
qed

lemma getDirectoryItems_sorted:
  assumes total: "\<forall>a b. localeCompare h a b \<le> 0 \<or> localeCompare h b a \<le> 0"
    and trans: "\<forall>a b c. localeCompare h a b \<le> 0 \<and> localeCompare h b c \<le> 0
                  \<longrightarrow> localeCompare h a c \<le> 0"
  shows "sorted_wrt (listed_before h) (fst (getDirectoryItems h e cur))"
proof -
  have le: "sorted_wrt (\<lambda>a b. compareItems h a b \<le> 0) (sortItems (compareItems h) xs)" for xs
    by (rule sorted_sortItems) (use compareItems_total [OF total] compareItems_trans [OF trans] in blast)+
  have "sorted_wrt (\<lambda>a b. compareItems h a b \<le> 0) (fst (getDirectoryItems h e cur))"
    using le by (auto simp: getDirectoryItems_def Let_def split: sum.splits)
  then show ?thesis
    by (rule sorted_wrt_mono_rel [rotated])
      (use getDirectoryItems_no_stub [of h e cur] compareItems_listed_before in blast)
qed

lemma sorted_parent_first:
  assumes "sorted_wrt (listed_before h) xs" and "\<exists>x\<in>set xs. kind_of x = ParentLink"
  shows "kind_of (hd xs) = ParentLink"
proof (cases xs)
  case Nil
  with assms(2) show ?thesis by simp
next
  case (Cons a rest)
  from assms(2) obtain x where x: "x \<in> set xs" "kind_of x = ParentLink" by blast
  show ?thesis
  proof (cases "x = a")
    case True
    with x Cons show ?thesis by simp
  next
    case False
    with x Cons have "x \<in> set rest" by simp
    with assms(1) Cons have "listed_before h a x" by simp
    with x(2) Cons show ?thesis by (auto simp: listed_before_def)
  qed
qed

lemma mockItems_sorted:
  "map label (sortItems (compareItems posix) mockItems)
     = [''..'', ''alpha/'', ''beta/'', ''apple.txt'', ''zebra.txt'']"
  by (simp add: sortItems_def compareItems_def mockItems_def mock_item_def posix_def
      ascii_compare_def)

text \<open>
  Claim C3. Let \<^verbatim>\<open>localeCompare\<close> be a total and transitive comparison. Then the
  list that \<^verbatim>\<open>getDirectoryItems\<close> returns is sorted by the order of the
  specification: the parent link first, then directories before files, and entries of
  one kind in ascending \<^verbatim>\<open>localeCompare\<close> of their labels. If the list holds a
  parent link, its first entry is one; in a directory other than the root the first
  entry is the Go Up item. The list has exactly the entries that were read (as a
  multiset). The five items of the sorting test of the repository, compared character
  by character, come out as \<^verbatim>\<open>..\<close>, \<^verbatim>\<open>alpha/\<close>, \<^verbatim>\<open>beta/\<close>,
  \<^verbatim>\<open>apple.txt\<close>, \<^verbatim>\<open>zebra.txt\<close>. The listing is a function of the host, the
  surroundings and the directory, so equal inputs give equal lists.
\<close>

theorem C3_listing_order:
  assumes total: "\<forall>a b. localeCompare h a b \<le> 0 \<or> localeCompare h b a \<le> 0"
    and trans: "\<forall>a b c. localeCompare h a b \<le> 0 \<and> localeCompare h b c \<le> 0
                  \<longrightarrow> localeCompare h a c \<le> 0"
  shows "sorted_wrt (listed_before h) (fst (getDirectoryItems h e cur))
       \<and> ((\<exists>x\<in>set (fst (getDirectoryItems h e cur)). kind_of x = ParentLink) \<longrightarrow>
            kind_of (hd (fst (getDirectoryItems h e cur))) = ParentLink)
       \<and> (readdir e cur = Inr files \<and> statChildren h e cur files = Inr children \<longrightarrow>
            mset (fst (getDirectoryItems h e cur))
              = mset ((case workspaceRoot e of
                         Some root \<Rightarrow> if cur \<noteq> root then [goUpItem h cur] else []
                       | None \<Rightarrow> []) @ children))
       \<and> (readdir e cur = Inr files \<and> statChildren h e cur files = Inr children
            \<and> workspaceRoot e = Some root \<and> cur \<noteq> root \<longrightarrow>
            hd (fst (getDirectoryItems h e cur)) = goUpItem h cur)
       \<and> map label (sortItems (compareItems posix) mockItems)
           = [''..'', ''alpha/'', ''beta/'', ''apple.txt'', ''zebra.txt'']"
proof -
  have s: "sorted_wrt (listed_before h) (fst (getDirectoryItems h e cur))"
    by (rule getDirectoryItems_sorted [OF total trans])
  have p: "(\<exists>x\<in>set (fst (getDirectoryItems h e cur)). kind_of x = ParentLink) \<longrightarrow>
             kind_of (hd (fst (getDirectoryItems h e cur))) = ParentLink"
    using sorted_parent_first [OF s] by blast
  have m: "readdir e cur = Inr files \<and> statChildren h e cur files = Inr children \<longrightarrow>
            mset (fst (getDirectoryItems h e cur))
              = mset ((case workspaceRoot e of
                         Some root \<Rightarrow> if cur \<noteq> root then [goUpItem h cur] else []
                       | None \<Rightarrow> []) @ children)"
    by (simp add: getDirectoryItems_success mset_sortItems)
  have f: "readdir e cur = Inr files \<and> statChildren h e cur files = Inr children
            \<and> workspaceRoot e = Some root \<and> cur \<noteq> root \<longrightarrow>
            hd (fst (getDirectoryItems h e cur)) = goUpItem h cur"
    by (simp add: getDirectoryItems_success sortItems_goUp_first)
  show ?thesis using s p m f mockItems_sorted by blast
qed

lemma ascii_compare_total: "\<forall>a b. localeCompare posix a b \<le> 0 \<or> localeCompare posix b a \<le> 0"
  by (auto simp: posix_def ascii_compare_def)

lemma ascii_compare_trans:
  "\<forall>a b c. localeCompare posix a b \<le> 0 \<and> localeCompare posix b c \<le> 0
     \<longrightarrow> localeCompare posix a c \<le> 0"
  by (auto simp: posix_def ascii_compare_def split: if_splits)

lemma demo_listing:
  "readdir demo_env ''/ws/src'' = Inr [''zebra.txt'', ''alpha'', ''beta'', ''apple.txt'']"
  "statChildren posix demo_env ''/ws/src'' [''zebra.txt'', ''alpha'', ''beta'', ''apple.txt'']
     = Inr [childItem ''/ws/src/zebra.txt'' ''zebra.txt'' plain_file,
            childItem ''/ws/src/alpha'' ''alpha'' plain_dir,
            childItem ''/ws/src/beta'' ''beta'' plain_dir,
            childItem ''/ws/src/apple.txt'' ''apple.txt'' plain_file]"
  "workspaceRoot demo_env = Some ''/ws''"
  by (simp_all add: demo_env_def posix_path_eval plain_file_def plain_dir_def)

theorem C3_listing_order_witness:
  "readdir demo_env ''/ws/src'' = Inr [''zebra.txt'', ''alpha'', ''beta'', ''apple.txt'']
   \<and> workspaceRoot demo_env = Some ''/ws'' \<and> ''/ws/src'' \<noteq> ''/ws''
   \<and> sorted_wrt (listed_before posix) (fst (getDirectoryItems posix demo_env ''/ws/src''))
   \<and> hd (fst (getDirectoryItems posix demo_env ''/ws/src'')) = goUpItem posix ''/ws/src''"
proof -
  note th = C3_listing_order [OF ascii_compare_total ascii_compare_trans, of demo_env "''/ws/src''"
      "[''zebra.txt'', ''alpha'', ''beta'', ''apple.txt'']"
      "[childItem ''/ws/src/zebra.txt'' ''zebra.txt'' plain_file,
        childItem ''/ws/src/alpha'' ''alpha'' plain_dir,
        childItem ''/ws/src/beta'' ''beta'' plain_dir,
        childItem ''/ws/src/apple.txt'' ''apple.txt'' plain_file]" "''/ws''"]
  have ne: "''/ws/src'' \<noteq> ''/ws''" by simp
  have s: "sorted_wrt (listed_before posix) (fst (getDirectoryItems posix demo_env ''/ws/src''))"
    by (rule th [THEN conjunct1])
  have f: "hd (fst (getDirectoryItems posix demo_env ''/ws/src'')) = goUpItem posix ''/ws/src''"
    by (rule th [THEN conjunct2, THEN conjunct2, THEN conjunct2, THEN conjunct1, THEN mp])
      (intro conjI demo_listing ne)
  show ?thesis
    by (intro conjI demo_listing(1) demo_listing(3) ne s f)
qed

lemma demo_listing_labels:
  "map label (fst (getDirectoryItems posix demo_env ''/ws/src''))
     = [''..'', ''alpha/'', ''beta/'', ''apple.txt'', ''zebra.txt'']"
  by (simp add: getDirectoryItems_def demo_env_def posix_path_eval sortItems_def
      compareItems_def item_eval ascii_compare_def Let_def)

section \<open>The current directory and the workspace root\<close>









lemma demo_start_currentPath: "currentPath demo_start = ''/ws/src''"
  by (simp add: demo_start_def showQuickPick_def split: prod.splits)




text \<open>
  The boundary test compares strings: a directory beside the root whose name continues
  the name of the root is accepted.
\<close>

lemma sibling_directory_accepted:
  "currentPath (navigateToPathAndUpdateQuickPick posix demo_env ''/ws-other'' demo_start)
     = ''/ws-other''"
  by (simp add: navigateToPathAndUpdateQuickPick_def demo_env_def startsWith_def
      split: prod.splits)

lemma demo_up_state:
  "currentPath demo_up = ''/ws'' \<and> qp_title demo_up = ''>>> '' \<and> qp_value demo_up = []"
  by (simp add: demo_up_def onDidAccept_def resolveSelection_def goUpItem_def
      demo_start_currentPath navigateToPathAndUpdateQuickPick_def demo_env_def
      getRelativePath_def posix_path_eval string_eval split: prod.splits)

section \<open>Relative and absolute paths\<close>

subsection \<open>Splitting and normalising\<close>

lemma split_slash_nonempty: "split_slash s \<noteq> []"
  by (induction s) (auto split: list.splits)

lemma split_slash_append:
  "split_slash (a @ CHR ''/'' # b) = split_slash a @ split_slash b"
proof (induction a)
  case Nil
  then show ?case by simp
next
  case (Cons c a)
  then show ?case
    using split_slash_nonempty [of a] by (auto split: list.splits)
qed

lemma split_slash_no_slash: "\<forall>seg\<in>set (split_slash s). CHR ''/'' \<notin> set seg"
  by (induction s) (auto split: list.splits)

lemma split_slash_single: "CHR ''/'' \<notin> set c \<Longrightarrow> split_slash c = [c]"
  by (induction c) auto

lemma split_slash_join:
  "comps \<noteq> [] \<Longrightarrow> \<forall>c\<in>set comps. CHR ''/'' \<notin> set c \<Longrightarrow>
   split_slash (join_with ''/'' comps) = comps"
proof (induction comps)
  case Nil
  then show ?case by simp
next
  case (Cons x xs)
  show ?case
  proof (cases xs)
    case Nil
    with Cons.prems show ?thesis by (simp add: split_slash_single)
  next
    case (Cons y ys)
    with Cons.IH Cons.prems have "split_slash (join_with ''/'' xs) = xs" by simp
    with Cons Cons.prems show ?thesis
      using split_slash_append [of x "join_with ''/'' (y # ys)"]
      by (simp add: split_slash_single)
  qed
qed

lemma join_with_hd:
  "comps \<noteq> [] \<Longrightarrow> hd comps \<noteq> [] \<Longrightarrow>
   join_with s comps \<noteq> [] \<and> hd (join_with s comps) = hd (hd comps)"
  by (induction s comps rule: join_with.induct) auto

lemma normalizeStep_empty [simp]: "normalizeStep a st [] = st"
  by (simp add: normalizeStep_def)

lemma normal_stack_step:
  "normal_stack a st \<Longrightarrow> CHR ''/'' \<notin> set seg \<Longrightarrow> normal_stack a (normalizeStep a st seg)"
  by (cases st) (auto simp: normalizeStep_def)

lemma normal_stack_foldl:
  "normal_stack a st \<Longrightarrow> \<forall>seg\<in>set segs. CHR ''/'' \<notin> set seg \<Longrightarrow>
   normal_stack a (foldl (normalizeStep a) st segs)"
  by (induction segs arbitrary: st) (auto simp: normal_stack_step)

lemma normal_stack_elems:
  "normal_stack a st \<Longrightarrow> \<forall>s\<in>set st. s \<noteq> [] \<and> CHR ''/'' \<notin> set s"
  by (induction st) auto

lemma normal_stack_replay:
  "normal_stack a st \<Longrightarrow> foldl (normalizeStep a) [] (rev st) = st"
proof (induction st)
  case Nil
  then show ?case by simp
next
  case (Cons s st)
  then have "foldl (normalizeStep a) [] (rev (s # st)) = normalizeStep a st s"
    by simp
  also have "\<dots> = s # st"
    using Cons.prems by (cases st) (auto simp: normalizeStep_def)
  finally show ?case .
qed

lemma normalizeSegments_normal:
  "normal_stack a (rev (normalizeSegments a (split_slash p)))"
  unfolding normalizeSegments_def
  using normal_stack_foldl [of a "[]" "split_slash p"] split_slash_no_slash [of p]
  by simp

lemma normalizeSegments_pad:
  "normalizeSegments a ([] # segs) = normalizeSegments a segs"
  "normalizeSegments a (segs @ [[]]) = normalizeSegments a segs"
  "normalizeSegments a (xs @ [] # ys) = normalizeSegments a (xs @ ys)"
  by (simp_all add: normalizeSegments_def)

lemma normalizeSegments_idem:
  assumes "comps = normalizeSegments a (split_slash p)"
  shows "normalizeSegments a comps = comps"
proof -
  have "normal_stack a (rev comps)"
    using assms normalizeSegments_normal by simp
  from normal_stack_replay [OF this] show ?thesis
    by (simp add: normalizeSegments_def)
qed

lemma isAbsolute_append: "x \<noteq> [] \<Longrightarrow> isAbsolute (x @ y) = isAbsolute x"
  by (simp add: isAbsolute_def)

lemma canonical_trailing_slash:
  assumes "x \<noteq> []"
  shows "canonical (x @ ''/'') = canonical x"
proof -
  have "split_slash (x @ ''/'') = split_slash x @ [[]]"
    using split_slash_append [of x "[]"] by simp
  then show ?thesis
    using assms by (simp add: canonical_def isAbsolute_append normalizeSegments_pad)
qed

lemma canonical_double_slash:
  assumes "root \<noteq> []" and "last root = CHR ''/''"
  shows "canonical (root @ CHR ''/'' # x) = canonical (root @ x)"
proof -
  from assms obtain r where r: "root = r @ ''/''"
    by (metis append_butlast_last_id)
  have "split_slash (root @ CHR ''/'' # x) = split_slash r @ [] # split_slash x"
    unfolding r using split_slash_append [of r "CHR ''/'' # x"] by simp
  moreover have "split_slash (root @ x) = split_slash r @ split_slash x"
    unfolding r using split_slash_append [of r x] by simp
  ultimately show ?thesis
    using assms(1) by (simp add: canonical_def isAbsolute_append normalizeSegments_pad)
qed

lemma canonical_normalize:
  assumes "p \<noteq> []"
  shows "canonical (posix_normalize p) = canonical p"
proof -
  define a where "a = (\<not> isAbsolute p)"
  define comps where "comps = normalizeSegments a (split_slash p)"
  have elems: "\<forall>c\<in>set comps. c \<noteq> [] \<and> CHR ''/'' \<notin> set c"
    using normal_stack_elems [OF normalizeSegments_normal [of a p]]
    by (simp add: comps_def)
  have idem: "normalizeSegments a comps = comps"
    using normalizeSegments_idem [of comps a p] by (simp add: comps_def)
  show ?thesis
  proof (cases "comps = []")
    case True
    then have out: "posix_normalize p
        = (if isAbsolute p then ''/'' else if last p = CHR ''/'' then ''./'' else ''.'')"
      using assms by (simp add: posix_normalize_def Let_def comps_def a_def)
    have "canonical (posix_normalize p) = (isAbsolute p, [])"
      unfolding out
      by (simp add: canonical_def isAbsolute_def normalizeSegments_def normalizeStep_def)
    moreover have "canonical p = (isAbsolute p, [])"
      using True by (simp add: canonical_def comps_def a_def)
    ultimately show ?thesis by simp
  next
    case False
    define J where "J = join_with ''/'' comps"
    have hdc: "hd comps \<noteq> []" "CHR ''/'' \<notin> set (hd comps)"
      using False elems by (cases comps; simp)+
    have J: "J \<noteq> []" "hd J = hd (hd comps)"
      using join_with_hd [OF False hdc(1), of "''/''"] by (simp_all add: J_def)
    have "hd (hd comps) \<in> set (hd comps)"
      using hdc(1) by simp
    with hdc(2) have "hd (hd comps) \<noteq> CHR ''/''" by metis
    with J have J_rel: "\<not> isAbsolute J"
      by (simp add: isAbsolute_def)
    have splitJ: "split_slash J = comps"
      unfolding J_def using split_slash_join [OF False] elems by blast
    have out: "posix_normalize p
        = (if isAbsolute p then ''/'' else []) @ J @ (if last p = CHR ''/'' then ''/'' else [])"
      using assms J(1) by (simp add: posix_normalize_def Let_def comps_def a_def J_def)
    have abs: "isAbsolute (posix_normalize p) = isAbsolute p"
      unfolding out using J_rel J(1) by (auto simp: isAbsolute_def)
    have tail: "split_slash (J @ (if last p = CHR ''/'' then ''/'' else []))
                  = comps @ (if last p = CHR ''/'' then [[]] else [])"
      using split_slash_append [of J "[]"] splitJ by simp
    have "normalizeSegments a (split_slash (posix_normalize p)) = comps"
      unfolding out using tail idem by (auto simp: normalizeSegments_pad)
    with abs show ?thesis
      by (simp add: canonical_def comps_def a_def)
  qed
qed

lemma posix_join_root:
  assumes "root \<noteq> []"
  shows "posix_join root rel
           = posix_normalize (if rel = [] then root else root @ CHR ''/'' # rel)"
  using assms by (simp add: posix_join_def)

lemma canonical_join:
  assumes "root \<noteq> []"
  shows "canonical (posix_join root rel)
           = canonical (if rel = [] then root else root @ CHR ''/'' # rel)"
  using assms canonical_normalize by (simp add: posix_join_root)

subsection \<open>The round trip\<close>

text \<open>
  Claim C2, as stated, fails for a path under the root whose remainder begins with a
  backslash, which \<^verbatim>\<open>getRelativePath\<close> strips on every platform. With the root
  \<^verbatim>\<open>/\<close> and the file whose name is a backslash followed by \<^verbatim>\<open>foo\<close>, the round
  trip gives \<^verbatim>\<open>/foo/\<close>, another path.
\<close>

theorem C2_backslash_counterexample:
  "isAbsolute ''/'' \<and> isAbsolute (''/'' @ [CHR 0x5C] @ ''foo'')
   \<and> prefix ''/'' (''/'' @ [CHR 0x5C] @ ''foo'')
   \<and> getFullPath posix_join (Some ''/'')
        (getRelativePath ''/'' (Some ''/'') (''/'' @ [CHR 0x5C] @ ''foo'')) = ''/foo/''
   \<and> \<not> path_equal ''/foo/'' (''/'' @ [CHR 0x5C] @ ''foo'')"
  by (simp add: getFullPath_def getRelativePath_def path_equal_def canonical_def
      posix_path_eval string_eval)

text \<open>
  Claim C2, amended. With the POSIX \<^verbatim>\<open>path.join\<close>: for every absolute root and
  every path that is the root or continues it at a segment boundary (the root ends with
  a slash, or the path has a slash right after the root), and whose remainder after the
  root does not begin with a backslash, \<^verbatim>\<open>getFullPath(getRelativePath(p))\<close> is
  equal to \<^verbatim>\<open>p\<close> as a path.
\<close>

theorem C2_round_trip:
  assumes abs: "isAbsolute root"
    and pre: "prefix root p"
    and boundary: "p = root \<or> last root = CHR ''/'' \<or> p ! length root = CHR ''/''"
    and nobs: "\<not> prefix [CHR 0x5C] (drop (length root) p)"
  shows "path_equal (getFullPath posix_join (Some root) (getRelativePath ''/'' (Some root) p)) p"
proof -
  from abs have rne: "root \<noteq> []" by (simp add: isAbsolute_def)
  from pre obtain suf where p: "p = root @ suf" by (auto simp: prefix_def)
  define rel where "rel = getRelativePath ''/'' (Some root) p"
  have full: "getFullPath posix_join (Some root) rel = posix_join root rel"
    by (simp add: getFullPath_def)
  have goal: "canonical (posix_join root rel) = canonical p"
  proof (cases suf)
    case Nil
    then have "rel = []"
      by (simp add: rel_def p getRelativePath_def startsWith_def substring_def endsWith_def)
    with Nil p rne show ?thesis by (simp add: canonical_join)
  next
    case (Cons c rest)
    show ?thesis
    proof (cases "c = CHR ''/''")
      case True
      have rel: "rel = (if rest \<noteq> [] \<and> \<not> suffix ''/'' rest then rest @ ''/'' else rest)"
        using Cons True
        by (simp add: rel_def p getRelativePath_def startsWith_def substring_def endsWith_def)
      show ?thesis
      proof (cases "rest = []")
        case True
        with rel have "rel = []" by simp
        moreover have "canonical (root @ ''/'') = canonical root"
          using canonical_trailing_slash [OF rne] .
        ultimately show ?thesis
          using Cons \<open>c = CHR ''/''\<close> True p rne by (simp add: canonical_join)
      next
        case False
        have "canonical (root @ CHR ''/'' # rel) = canonical (root @ CHR ''/'' # rest)"
          using canonical_trailing_slash [of "root @ CHR ''/'' # rest"] rel by auto
        moreover have "rel \<noteq> []" using rel False by auto
        ultimately show ?thesis
          using Cons True p rne by (simp add: canonical_join)
      qed
    next
      case False
      from nobs Cons p have nb: "c \<noteq> CHR 0x5C" by simp
      from boundary Cons p False have lr: "last root = CHR ''/''"
        by (auto simp: nth_append)
      have rel: "rel = (if \<not> suffix ''/'' suf then suf @ ''/'' else suf)"
        using Cons False nb
        by (simp add: rel_def p getRelativePath_def startsWith_def substring_def endsWith_def)
      have "canonical (root @ CHR ''/'' # rel) = canonical (root @ rel)"
        by (rule canonical_double_slash [OF rne lr])
      also have "\<dots> = canonical (root @ suf)"
        using canonical_trailing_slash [of "root @ suf"] rel rne by auto
      finally have "canonical (root @ CHR ''/'' # rel) = canonical p"
        by (simp add: p)
      moreover have "rel \<noteq> []" using rel Cons by auto
      ultimately show ?thesis using rne by (simp add: canonical_join)
    qed
  qed
  show ?thesis
    unfolding path_equal_def using full goal by (simp add: rel_def)
qed

theorem C2_round_trip_witness:
  "isAbsolute ''/ws'' \<and> prefix ''/ws'' ''/ws/a/b/c''
   \<and> ''/ws/a/b/c'' ! length ''/ws'' = CHR ''/''
   \<and> \<not> prefix [CHR 0x5C] (drop (length ''/ws'') ''/ws/a/b/c'')
   \<and> getRelativePath ''/'' (Some ''/ws'') ''/ws/a/b/c'' = ''a/b/c/''
   \<and> path_equal (getFullPath posix_join (Some ''/ws'') ''a/b/c/'') ''/ws/a/b/c''"
proof -
  have a: "isAbsolute ''/ws''" by (simp add: isAbsolute_def)
  have b: "prefix ''/ws'' ''/ws/a/b/c''" by simp
  have c: "''/ws/a/b/c'' ! length ''/ws'' = CHR ''/''" by simp
  have d: "\<not> prefix [CHR 0x5C] (drop (length ''/ws'') ''/ws/a/b/c'')" by simp
  have e: "getRelativePath ''/'' (Some ''/ws'') ''/ws/a/b/c'' = ''a/b/c/''"
    by (simp add: getRelativePath_def string_eval)
  from c have c': "''/ws/a/b/c'' = ''/ws'' \<or> last ''/ws'' = CHR ''/''
      \<or> ''/ws/a/b/c'' ! length ''/ws'' = CHR ''/''" by blast
  show ?thesis
    using C2_round_trip [OF a b c' d] a b c d e by simp
qed

subsection \<open>The relative path\<close>

text \<open>
  What holds of \<^verbatim>\<open>getRelativePath\<close> on every platform: a path that does not start
  with the root is returned unchanged, the root gives the empty string, and the result
  for a path that starts with the root is empty or ends with a forward slash.
\<close>

lemma getRelativePath_outside_root_slash:
  "(\<not> prefix root p \<longrightarrow> getRelativePath sep (Some root) p = p)
   \<and> getRelativePath sep (Some root) root = []
   \<and> (prefix root p \<longrightarrow>
        getRelativePath sep (Some root) p = []
        \<or> last (getRelativePath sep (Some root) p) = CHR ''/'')"
proof -
  have slash: "suffix ''/'' s \<longleftrightarrow> s \<noteq> [] \<and> last s = CHR ''/''" for s :: string
    by (cases s rule: rev_cases) (auto simp: suffix_def)
  show ?thesis
    by (auto simp: getRelativePath_def startsWith_def substring_def endsWith_def Let_def slash)
qed

text \<open>
  Claim C8. The claim says the result uses forward slashes whatever the separator of
  the platform is, and the test of the repository for a nested path expects
  \<^verbatim>\<open>apps/app/service/\<close> for \<^verbatim>\<open>path.join(root, "apps/app/service")\<close>. On a
  platform whose separator is the backslash that input is
  \<^verbatim>\<open>C:\ws\apps\app\service\<close> under the root \<^verbatim>\<open>C:\ws\<close>, and
  \<^verbatim>\<open>getRelativePath\<close> returns \<^verbatim>\<open>apps\app\service/\<close>: the leading separator is
  stripped and a forward slash appended, but the separators inside the remainder are
  not converted. The code falls short of the claim here.
\<close>

theorem C8_backslash_separator_kept:
  "getRelativePath [CHR 0x5C] (Some (''C:'' @ [CHR 0x5C] @ ''ws''))
     (''C:'' @ [CHR 0x5C] @ ''ws'' @ [CHR 0x5C] @ ''apps'' @ [CHR 0x5C] @ ''app''
        @ [CHR 0x5C] @ ''service'')
     = ''apps'' @ [CHR 0x5C] @ ''app'' @ [CHR 0x5C] @ ''service/''
   \<and> getRelativePath [CHR 0x5C] (Some (''C:'' @ [CHR 0x5C] @ ''ws''))
     (''C:'' @ [CHR 0x5C] @ ''ws'' @ [CHR 0x5C] @ ''apps'' @ [CHR 0x5C] @ ''app''
        @ [CHR 0x5C] @ ''service'')
     \<noteq> ''apps/app/service/''"
  by (simp add: getRelativePath_def string_eval)

lemma getRelativePath_examples:
  "getRelativePath ''/'' (Some ''/ws'') ''/ws'' = []"
  "getRelativePath ''/'' (Some ''/ws'') ''/ws/src'' = ''src/''"
  "getRelativePath ''/'' (Some ''/ws'') ''/ws/a/b/c'' = ''a/b/c/''"
  "getRelativePath ''/'' (Some ''/ws'') ''/outside'' = ''/outside''"
  by (simp_all add: getRelativePath_def string_eval)

end
